theory Spec2Isabelle
  imports Main "HOL-Library.AList"
begin

section \<open>Strings and characters of the host language\<close>

text \<open>
  The program is JavaScript (\<^verbatim>\<open>src/app.js\<close>). A document is a \<^typ>\<open>string\<close>; a
  \<^typ>\<open>char\<close> is read as a UTF-16 code unit below 256. On that range the classes of the
  regular expressions and the string methods the program calls are the following.
\<close>

definition is_digit :: "char \<Rightarrow> bool" where
  \<comment> \<open>\<^verbatim>\<open>\d\<close>, \<^verbatim>\<open>[0-9]\<close>\<close>
  "is_digit c = (c \<in> set ''0123456789'')"

definition is_word :: "char \<Rightarrow> bool" where
  \<comment> \<open>\<^verbatim>\<open>\w\<close>\<close>
  "is_word c = (c \<in> set ''abcdefghijklmnopqrstuvwxyzABCDEFGHIJKLMNOPQRSTUVWXYZ0123456789_'')"

definition is_space :: "char \<Rightarrow> bool" where
  \<comment> \<open>\<^verbatim>\<open>\s\<close>, and what \<^verbatim>\<open>trim\<close> strips: TAB, LF, VT, FF, CR, SP, NBSP\<close>
  "is_space c = (c \<in> set [CHR 0x09, CHR 0x0A, CHR 0x0B, CHR 0x0C, CHR 0x0D, CHR 0x20, CHR 0xA0])"

definition is_dot :: "char \<Rightarrow> bool" where
  \<comment> \<open>\<^verbatim>\<open>.\<close> without the \<^verbatim>\<open>s\<close> flag: anything but a line terminator\<close>
  "is_dot c = (c \<notin> set [CHR 0x0A, CHR 0x0D])"

definition one_of :: "string \<Rightarrow> char \<Rightarrow> bool" where
  "one_of cs c = (c \<in> set cs)"

definition none_of :: "string \<Rightarrow> char \<Rightarrow> bool" where
  "none_of cs c = (c \<notin> set cs)"

definition upper_chars :: string where
  "upper_chars = ''ABCDEFGHIJKLMNOPQRSTUVWXYZ'' @
     [CHR 0xC0, CHR 0xC1, CHR 0xC2, CHR 0xC3, CHR 0xC4, CHR 0xC5, CHR 0xC6, CHR 0xC7,
      CHR 0xC8, CHR 0xC9, CHR 0xCA, CHR 0xCB, CHR 0xCC, CHR 0xCD, CHR 0xCE, CHR 0xCF,
      CHR 0xD0, CHR 0xD1, CHR 0xD2, CHR 0xD3, CHR 0xD4, CHR 0xD5, CHR 0xD6,
      CHR 0xD8, CHR 0xD9, CHR 0xDA, CHR 0xDB, CHR 0xDC, CHR 0xDD, CHR 0xDE]"

definition lower_chars :: string where
  "lower_chars = ''abcdefghijklmnopqrstuvwxyz'' @
     [CHR 0xE0, CHR 0xE1, CHR 0xE2, CHR 0xE3, CHR 0xE4, CHR 0xE5, CHR 0xE6, CHR 0xE7,
      CHR 0xE8, CHR 0xE9, CHR 0xEA, CHR 0xEB, CHR 0xEC, CHR 0xED, CHR 0xEE, CHR 0xEF,
      CHR 0xF0, CHR 0xF1, CHR 0xF2, CHR 0xF3, CHR 0xF4, CHR 0xF5, CHR 0xF6,
      CHR 0xF8, CHR 0xF9, CHR 0xFA, CHR 0xFB, CHR 0xFC, CHR 0xFD, CHR 0xFE]"

definition lower_char :: "char \<Rightarrow> char" where
  "lower_char c = (case map_of (zip upper_chars lower_chars) c of Some d \<Rightarrow> d | None \<Rightarrow> c)"

definition toLowerCase :: "string \<Rightarrow> string" where
  "toLowerCase s = map lower_char s"

definition trim :: "string \<Rightarrow> string" where
  "trim s = rev (dropWhile is_space (rev (dropWhile is_space s)))"

fun startsWith :: "string \<Rightarrow> string \<Rightarrow> bool" where
  "startsWith s [] = True"
| "startsWith [] (p # ps) = False"
| "startsWith (c # cs) (p # ps) = (c = p \<and> startsWith cs ps)"

fun includes_str :: "string \<Rightarrow> string \<Rightarrow> bool" where
  \<comment> \<open>\<^verbatim>\<open>s.includes(t)\<close>\<close>
  "includes_str [] t = (t = [])"
| "includes_str (c # cs) t = (startsWith (c # cs) t \<or> includes_str cs t)"

definition substring :: "string \<Rightarrow> nat \<Rightarrow> nat \<Rightarrow> string" where
  \<comment> \<open>\<^verbatim>\<open>s.substring(a, b)\<close>; the program calls it with \<open>a \<le> b\<close> only\<close>
  "substring s a b = take (b - a) (drop a s)"

fun split_char :: "char \<Rightarrow> string \<Rightarrow> string \<Rightarrow> string list" where
  \<comment> \<open>\<^verbatim>\<open>s.split(c)\<close> for a one-character separator; the second argument is
     the piece being read, reversed\<close>
  "split_char sep acc [] = [rev acc]"
| "split_char sep acc (c # cs) =
     (if c = sep then rev acc # split_char sep [] cs else split_char sep (c # acc) cs)"

fun split_pair :: "char \<Rightarrow> char \<Rightarrow> string \<Rightarrow> string \<Rightarrow> string list" where
  \<comment> \<open>\<^verbatim>\<open>s.split(ab)\<close> for a two-character separator\<close>
  "split_pair a b acc [] = [rev acc]"
| "split_pair a b acc [c] = [rev (c # acc)]"
| "split_pair a b acc (c # d # cs) =
     (if c = a \<and> d = b then rev acc # split_pair a b [] cs
      else split_pair a b (c # acc) (d # cs))"

subsection \<open>Numbers\<close>

text \<open>
  \<open>Num n\<close> is the Number value of the integer \<open>n\<close>, \<open>NaN\<close> is not-a-number. What
  \<^verbatim>\<open>parseFloat\<close> returns is kept as the text it was applied to.
\<close>

datatype jsnum = NaN | Num int

definition digit_val :: "char \<Rightarrow> int" where
  "digit_val c = (case map_of (zip ''0123456789'' [0, 1, 2, 3, 4, 5, 6, 7, 8, 9]) c of
     Some d \<Rightarrow> d | None \<Rightarrow> 0)"

definition digits_value :: "string \<Rightarrow> int" where
  "digits_value ds = foldl (\<lambda>a c. 10 * a + digit_val c) 0 ds"

definition parseInt10 :: "string \<Rightarrow> jsnum" where
  \<comment> \<open>\<^verbatim>\<open>parseInt(s, 10)\<close>: leading white space, a sign, then the longest run of digits\<close>
  "parseInt10 s =
     (let t = dropWhile is_space s;
          neg = (t \<noteq> [] \<and> hd t = CHR ''-'');
          u = (if t \<noteq> [] \<and> (hd t = CHR ''-'' \<or> hd t = CHR ''+'') then tl t else t);
          ds = takeWhile is_digit u
      in if ds = [] then NaN else Num (if neg then - digits_value ds else digits_value ds))"

section \<open>Regular expressions\<close>

text \<open>
  The regular expressions of the program, with the backtracking semantics of the host:
  \<open>rm n r st\<close> lists the states in which \<open>r\<close> can stop when started in \<open>st\<close>, in the
  order the matcher tries them, so that the head of the list is the match it returns.
  A state is the number of characters left, the text left and the groups captured so
  far; \<open>n\<close> is the length of the whole input. An iteration of a star that consumes
  nothing is rejected, as the host does.
\<close>

datatype re =
    REps
  | RChar char
  | RSet "char \<Rightarrow> bool"
  | RCat re re
  | RAlt re re
  | RStar re
  | RLazy re
  | RGroup nat re
  | RBol
  | REol
  | RAhead re

type_synonym groups = "(nat \<times> string) list"
type_synonym mstate = "nat \<times> string \<times> groups"

fun rm :: "nat \<Rightarrow> re \<Rightarrow> mstate \<Rightarrow> mstate list" where
  "rm n REps st = [st]"
| "rm n (RChar c) (l, s, g) =
     (case s of [] \<Rightarrow> [] | x # xs \<Rightarrow> if x = c then [(l - 1, xs, g)] else [])"
| "rm n (RSet p) (l, s, g) =
     (case s of [] \<Rightarrow> [] | x # xs \<Rightarrow> if p x then [(l - 1, xs, g)] else [])"
| "rm n (RCat a b) st = concat (map (rm n b) (rm n a st))"
| "rm n (RAlt a b) st = rm n a st @ rm n b st"
| "rm n (RStar r) (l, s, g) =
     concat (map (\<lambda>(l', s', g'). if l' < l then rm n (RStar r) (l', s', g') else [])
                 (rm n r (l, s, g)))
     @ [(l, s, g)]"
| "rm n (RLazy r) (l, s, g) =
     (l, s, g) #
     concat (map (\<lambda>(l', s', g'). if l' < l then rm n (RLazy r) (l', s', g') else [])
                 (rm n r (l, s, g)))"
| "rm n (RGroup k r) (l, s, g) =
     map (\<lambda>(l', s', g'). (l', s', (k, take (l - l') s) # g')) (rm n r (l, s, g))"
| "rm n RBol (l, s, g) = (if l = n then [(l, s, g)] else [])"
| "rm n REol (l, s, g) = (if s = [] then [(l, s, g)] else [])"
| "rm n (RAhead r) st = (case rm n r st of [] \<Rightarrow> [] | x # xs \<Rightarrow> [st])"

definition lit :: "string \<Rightarrow> re" where
  "lit s = foldr (\<lambda>c r. RCat (RChar c) r) s REps"

definition cats :: "re list \<Rightarrow> re" where
  "cats rs = foldr RCat rs REps"

definition plus :: "re \<Rightarrow> re" where
  \<comment> \<open>\<^verbatim>\<open>r+\<close>\<close>
  "plus r = RCat r (RStar r)"

definition plus_lazy :: "re \<Rightarrow> re" where
  \<comment> \<open>\<^verbatim>\<open>r+?\<close>\<close>
  "plus_lazy r = RCat r (RLazy r)"

definition ws :: re where
  \<comment> \<open>\<^verbatim>\<open>\s*\<close>\<close>
  "ws = RStar (RSet is_space)"

text \<open>A match: the index where it starts, the matched text and the groups.\<close>

record rmatch =
  index :: nat
  matched :: string
  grps :: groups

definition group :: "rmatch \<Rightarrow> nat \<Rightarrow> string" where
  \<comment> \<open>\<^verbatim>\<open>m[k]\<close>; every group of the program's expressions takes part in every match\<close>
  "group m k = (case map_of (grps m) k of Some t \<Rightarrow> t | None \<Rightarrow> [])"

definition match_here :: "re \<Rightarrow> nat \<Rightarrow> nat \<Rightarrow> string \<Rightarrow> rmatch option" where
  "match_here r n l s =
     (case rm n r (l, s, []) of
        [] \<Rightarrow> None
      | (l', s', g) # rest \<Rightarrow> Some \<lparr>index = n - l, matched = take (l - l') s, grps = g\<rparr>)"

fun search :: "re \<Rightarrow> nat \<Rightarrow> nat \<Rightarrow> string \<Rightarrow> rmatch option" where
  "search r n l [] = match_here r n l []"
| "search r n l (c # cs) =
     (case match_here r n l (c # cs) of
        Some m \<Rightarrow> Some m
      | None \<Rightarrow> search r n (l - 1) cs)"

definition re_match :: "re \<Rightarrow> string \<Rightarrow> rmatch option" where
  \<comment> \<open>\<^verbatim>\<open>s.match(r)\<close> for \<open>r\<close> without the \<^verbatim>\<open>g\<close> flag: the leftmost match\<close>
  "re_match r s = search r (length s) (length s) s"

fun scan :: "re \<Rightarrow> nat \<Rightarrow> nat \<Rightarrow> nat \<Rightarrow> string \<Rightarrow> rmatch list" where
  \<comment> \<open>the successive matches of an expression with the \<^verbatim>\<open>g\<close> flag; \<open>skip\<close> counts the
     characters still inside the last match\<close>
  "scan r n skip l [] =
     (if skip = 0 then (case match_here r n l [] of Some m \<Rightarrow> [m] | None \<Rightarrow> []) else [])"
| "scan r n skip l (c # cs) =
     (if 0 < skip then scan r n (skip - 1) (l - 1) cs
      else (case match_here r n l (c # cs) of
              Some m \<Rightarrow> m # scan r n (length (matched m) - 1) (l - 1) cs
            | None \<Rightarrow> scan r n 0 (l - 1) cs))"

definition match_all :: "re \<Rightarrow> string \<Rightarrow> rmatch list" where
  \<comment> \<open>the matches a \<^verbatim>\<open>while ((m = r.exec(s)) !== null)\<close> loop sees, and those of
     \<^verbatim>\<open>s.match(r)\<close> with the \<^verbatim>\<open>g\<close> flag; no expression of the program matches the
     empty string\<close>
  "match_all r s = scan r (length s) 0 (length s) s"

fun strip :: "re \<Rightarrow> nat \<Rightarrow> nat \<Rightarrow> nat \<Rightarrow> string \<Rightarrow> string" where
  "strip r n skip l [] = []"
| "strip r n skip l (c # cs) =
     (if 0 < skip then strip r n (skip - 1) (l - 1) cs
      else (case match_here r n l (c # cs) of
              Some m \<Rightarrow> (if matched m = [] then c # strip r n 0 (l - 1) cs
                         else strip r n (length (matched m) - 1) (l - 1) cs)
            | None \<Rightarrow> c # strip r n 0 (l - 1) cs))"

definition remove_all :: "re \<Rightarrow> string \<Rightarrow> string" where
  \<comment> \<open>\<^verbatim>\<open>s.replace(r, '')\<close> with the \<^verbatim>\<open>g\<close> flag\<close>
  "remove_all r s = strip r (length s) 0 (length s) s"

definition remove_first :: "re \<Rightarrow> string \<Rightarrow> string" where
  \<comment> \<open>\<^verbatim>\<open>s.replace(r, '')\<close> without the \<^verbatim>\<open>g\<close> flag\<close>
  "remove_first r s =
     (case re_match r s of
        None \<Rightarrow> s
      | Some m \<Rightarrow> take (index m) s @ drop (index m + length (matched m)) s)"

fun split_before :: "re \<Rightarrow> nat \<Rightarrow> nat \<Rightarrow> string \<Rightarrow> string \<Rightarrow> string list" where
  \<comment> \<open>\<^verbatim>\<open>s.split(r)\<close> for a lookahead \<open>r\<close>, which matches no character: the text is cut
     before every position where \<open>r\<close> holds, the start of a piece apart\<close>
  "split_before r n l acc [] = [rev acc]"
| "split_before r n l acc (c # cs) =
     (case match_here r n l (c # cs) of
        Some m \<Rightarrow> (if acc = [] then split_before r n (l - 1) [c] cs
                   else rev acc # split_before r n (l - 1) [c] cs)
      | None \<Rightarrow> split_before r n (l - 1) (c # acc) cs)"

definition split_lookahead :: "re \<Rightarrow> string \<Rightarrow> string list" where
  "split_lookahead r s = split_before r (length s) (length s) [] s"

section \<open>Values and objects\<close>

text \<open>
  An object the program uses as a dictionary is the list of its own properties in the
  order they were created. Reading a key that is not an own property finds the members
  of \<^verbatim>\<open>Object.prototype\<close>, all of them truthy; \<^verbatim>\<open>for (k in obj)\<close> visits array-index
  keys first, in ascending order, then the other keys in creation order. The key
  \<^verbatim>\<open>__proto__\<close> is read like the other members; a document that makes the program
  assign to it is outside this development.
\<close>

datatype jsval =
    JBool bool
  | JNum jsnum
  | JFloat string  \<comment> \<open>\<^verbatim>\<open>parseFloat(t)\<close>\<close>
  | JStr string
  | JSize string  \<comment> \<open>the string \<^verbatim>\<open>`${parseFloat(t)} GB`\<close>\<close>
  | JArr "jsval list"
  | JObj "(string \<times> jsval) list"
  | JBuiltin string  \<comment> \<open>the member of \<^verbatim>\<open>Object.prototype\<close> of that name\<close>

type_synonym jsobj = "(string \<times> jsval) list"

definition object_prototype_keys :: "string list" where
  "object_prototype_keys =
     [''constructor'', ''__defineGetter__'', ''__defineSetter__'', ''hasOwnProperty'',
      ''__lookupGetter__'', ''__lookupSetter__'', ''isPrototypeOf'',
      ''propertyIsEnumerable'', ''toString'', ''valueOf'', ''__proto__'',
      ''toLocaleString'']"

definition inherited :: "string \<Rightarrow> bool" where
  "inherited k = (k \<in> set object_prototype_keys)"

definition is_array_index :: "string \<Rightarrow> bool" where
  "is_array_index k =
     (k \<noteq> [] \<and> list_all is_digit k \<and> (k = ''0'' \<or> hd k \<noteq> CHR ''0'')
      \<and> digits_value k < 4294967295)"

definition forin :: "(string \<times> 'a) list \<Rightarrow> string list" where
  \<comment> \<open>the keys \<^verbatim>\<open>for (k in obj)\<close> visits, in order\<close>
  "forin obj =
     sort_key digits_value (filter is_array_index (map fst obj))
     @ filter (\<lambda>k. \<not> is_array_index k) (map fst obj)"


definition set_prop :: "string \<Rightarrow> 'a \<Rightarrow> (string \<times> 'a) list \<Rightarrow> (string \<times> 'a) list" where
  \<comment> \<open>\<^verbatim>\<open>obj[k] = v\<close>: an own property keeps its place, a new one comes last\<close>
  "set_prop k v obj = AList.update k v obj"

section \<open>The field extractor: \<^verbatim>\<open>parseModelDetails\<close>\<close>

definition token :: re where
  \<comment> \<open>\<^verbatim>\<open>[^,\n]+\<close>\<close>
  "token = plus (RSet (none_of [CHR '','', CHR 0x0A]))"

definition field_re :: "string \<Rightarrow> re" where
  \<comment> \<open>\<^verbatim>\<open>/name:\s*([^,\n]+)/\<close>\<close>
  "field_re nm = cats [lit nm, ws, RGroup 1 token]"

definition quote :: re where
  \<comment> \<open>\<^verbatim>\<open>['"]\<close>\<close>
  "quote = RSet (one_of [CHR 0x27, CHR 0x22])"

definition quoted_re :: "string \<Rightarrow> re" where
  \<comment> \<open>\<^verbatim>\<open>/name:\s*['"]([^'"]+)['"]/\<close>\<close>
  "quoted_re nm = cats [lit nm, ws, quote, RGroup 1 (plus (RSet (none_of [CHR 0x27, CHR 0x22]))), quote]"

definition number_re :: "string \<Rightarrow> re" where
  \<comment> \<open>\<^verbatim>\<open>/name:\s*(\d+)/\<close>\<close>
  "number_re nm = cats [lit nm, ws, RGroup 1 (plus (RSet is_digit))]"

definition braces :: re where
  \<comment> \<open>\<^verbatim>\<open>\{[^}]+\}\<close>\<close>
  "braces = cats [RChar (CHR 0x7B), plus (RSet (none_of [CHR 0x7D])), RChar (CHR 0x7D)]"

definition digits_only :: "string \<Rightarrow> string" where
  \<comment> \<open>\<^verbatim>\<open>s.replace(/[^0-9]/g, '')\<close>\<close>
  "digits_only s = remove_all (RSet (\<lambda>c. \<not> is_digit c)) s"

definition ext_contextWindow :: "string \<Rightarrow> jsobj \<Rightarrow> jsobj" where
  "ext_contextWindow modelSection details =
     (case re_match (field_re ''contextWindow:'') modelSection of
        None \<Rightarrow> details
      | Some m \<Rightarrow> set_prop ''contextWindow'' (JNum (parseInt10 (digits_only (group m 1)))) details)"

definition ext_reservedOutputTokenSpace :: "string \<Rightarrow> jsobj \<Rightarrow> jsobj" where
  "ext_reservedOutputTokenSpace modelSection details =
     (case re_match (field_re ''reservedOutputTokenSpace:'') modelSection of
        None \<Rightarrow> details
      | Some m \<Rightarrow>
          (let v = trim (group m 1) in
           set_prop ''reservedOutputTokenSpace''
             (if v = ''null'' then JStr ''Not specified'' else JNum (parseInt10 (digits_only v)))
             details))"

definition ext_supportsSystemMessage :: "string \<Rightarrow> jsobj \<Rightarrow> jsobj" where
  "ext_supportsSystemMessage modelSection details =
     (case re_match (field_re ''supportsSystemMessage:'') modelSection of
        None \<Rightarrow> details
      | Some m \<Rightarrow>
          (let v = trim (group m 1) in
           set_prop ''supportsSystemMessage''
             (if v = ''false'' then JBool False else JStr (remove_all (RChar (CHR 0x27)) v))
             details))"

definition ext_supportsFIM :: "string \<Rightarrow> jsobj \<Rightarrow> jsobj" where
  "ext_supportsFIM modelSection details =
     (case re_match (field_re ''supportsFIM:'') modelSection of
        None \<Rightarrow> details
      | Some m \<Rightarrow> set_prop ''supportsFIM'' (JBool (trim (group m 1) = ''true'')) details)"

definition ext_specialToolFormat :: "string \<Rightarrow> jsobj \<Rightarrow> jsobj" where
  "ext_specialToolFormat modelSection details =
     (case re_match (quoted_re ''specialToolFormat:'') modelSection of
        None \<Rightarrow> details
      | Some m \<Rightarrow> set_prop ''specialToolFormat'' (JStr (group m 1)) details)"

definition ext_flag :: "string \<Rightarrow> string \<Rightarrow> string \<Rightarrow> jsobj \<Rightarrow> jsobj" where
  \<comment> \<open>the two flags read inside the reasoning object\<close>
  "ext_flag field key v details =
     (case re_match (field_re field) v of
        None \<Rightarrow> details
      | Some m \<Rightarrow> set_prop key (JBool (trim (group m 1) = ''true'')) details)"

definition ext_number :: "string \<Rightarrow> string \<Rightarrow> string \<Rightarrow> jsobj \<Rightarrow> jsobj" where
  "ext_number field key v details =
     (case re_match (number_re field) v of
        None \<Rightarrow> details
      | Some m \<Rightarrow> set_prop key (JNum (parseInt10 (group m 1))) details)"

definition ext_budget :: "string \<Rightarrow> jsobj \<Rightarrow> jsobj" where
  "ext_budget sliderValue details =
     ext_number ''default:'' ''reasoningBudgetDefault'' sliderValue
       (ext_number ''max:'' ''reasoningBudgetMax'' sliderValue
         (ext_number ''min:'' ''reasoningBudgetMin'' sliderValue details))"

definition ext_effort :: "string \<Rightarrow> jsobj \<Rightarrow> jsobj" where
  "ext_effort sliderValue details =
     (let details =
            (case re_match (cats [lit ''values:'', ws, RChar (CHR 0x5B),
                                  RGroup 1 (plus (RSet (none_of [CHR 0x5D]))), RChar (CHR 0x5D)])
                    sliderValue of
               None \<Rightarrow> details
             | Some m \<Rightarrow>
                 set_prop ''reasoningEffortValues''
                   (JArr (map (\<lambda>v. JStr (remove_all quote (trim v)))
                              (split_char (CHR '','') [] (group m 1))))
                   details)
      in (case re_match (quoted_re ''default:'') sliderValue of
            None \<Rightarrow> details
          | Some m \<Rightarrow> set_prop ''reasoningEffortDefault'' (JStr (group m 1)) details))"

definition ext_slider :: "string \<Rightarrow> jsobj \<Rightarrow> jsobj" where
  "ext_slider v details =
     (case re_match (cats [lit ''reasoningSlider:'', ws, RGroup 1 braces]) v of
        None \<Rightarrow> details
      | Some m \<Rightarrow>
          (let sliderValue = group m 1;
               details =
                 (case re_match (quoted_re ''type:'') sliderValue of
                    None \<Rightarrow> details
                  | Some t \<Rightarrow> set_prop ''reasoningSliderType'' (JStr (group t 1)) details)
           in if map_of details ''reasoningSliderType'' = Some (JStr ''budget_slider'')
              then ext_budget sliderValue details
              else if map_of details ''reasoningSliderType'' = Some (JStr ''effort_slider'')
              then ext_effort sliderValue details
              else details))"

definition ext_thinkTags :: "string \<Rightarrow> jsobj \<Rightarrow> jsobj" where
  "ext_thinkTags v details =
     (case re_match
             (cats [lit ''openSourceThinkTags:'', ws, RChar (CHR 0x5B), ws,
                    quote, RGroup 1 (plus (RSet (none_of [CHR 0x27, CHR 0x22]))), quote, ws,
                    RChar (CHR '',''), ws,
                    quote, RGroup 2 (plus (RSet (none_of [CHR 0x27, CHR 0x22]))), quote, ws,
                    RChar (CHR 0x5D)]) v of
        None \<Rightarrow> details
      | Some m \<Rightarrow> set_prop ''thinkTags'' (JArr [JStr (group m 1), JStr (group m 2)]) details)"

definition ext_reasoning :: "string \<Rightarrow> jsobj \<Rightarrow> jsobj" where
  "ext_reasoning modelSection details =
     (case re_match (cats [lit ''reasoningCapabilities:'', ws, RGroup 1 (RAlt braces (lit ''false''))])
             modelSection of
        None \<Rightarrow> details
      | Some m \<Rightarrow>
          (let v = trim (group m 1) in
           if v = ''false'' then set_prop ''hasReasoning'' (JBool False) details
           else ext_thinkTags v
                  (ext_slider v
                    (ext_flag ''canIOReasoning:'' ''canIOReasoning'' v
                      (ext_flag ''canTurnOffReasoning:'' ''canTurnOffReasoning'' v
                        (set_prop ''hasReasoning'' (JBool True) details))))))"

definition ext_price :: "string \<Rightarrow> string \<Rightarrow> string \<Rightarrow> jsobj \<Rightarrow> jsobj" where
  "ext_price field key costContent costInfo =
     (case re_match (field_re field) costContent of
        None \<Rightarrow> costInfo
      | Some m \<Rightarrow> set_prop key (JFloat (group m 1)) costInfo)"

definition ext_cost :: "string \<Rightarrow> jsobj \<Rightarrow> jsobj" where
  "ext_cost modelSection details =
     (case re_match (cats [lit ''cost:'', ws, RChar (CHR 0x7B), ws,
                           RGroup 1 (plus (RSet (none_of [CHR 0x7D]))), ws, RChar (CHR 0x7D)])
             modelSection of
        None \<Rightarrow> details
      | Some m \<Rightarrow>
          (let costContent = group m 1 in
           set_prop ''cost''
             (JObj (ext_price ''cache_write:'' ''cacheWrite'' costContent
                     (ext_price ''cache_read:'' ''cacheRead'' costContent
                       (ext_price ''output:'' ''output'' costContent
                         (ext_price ''input:'' ''input'' costContent [])))))
             details))"

definition ext_downloadable :: "string \<Rightarrow> jsobj \<Rightarrow> jsobj" where
  "ext_downloadable modelSection details =
     (case re_match (field_re ''downloadable:'') modelSection of
        None \<Rightarrow> details
      | Some m \<Rightarrow>
          (let v = trim (group m 1);
               details = set_prop ''downloadable'' (JBool (v \<noteq> ''false'')) details
           in if v \<noteq> ''false''
              then (case re_match (cats [lit ''sizeGb:'', ws,
                                         RGroup 1 (plus (RSet (none_of [CHR '','', CHR 0x0A, CHR 0x7D])))])
                           modelSection of
                      None \<Rightarrow> details
                    | Some z \<Rightarrow>
                        (let sizeValue = trim (group z 1) in
                         set_prop ''downloadSize''
                           (if sizeValue = [CHR 0x27] @ ''not-known'' @ [CHR 0x27]
                            then JStr ''Unknown'' else JSize sizeValue)
                           details))
              else details))"

definition parseModelDetails :: "string \<Rightarrow> jsobj" where
  "parseModelDetails modelSection =
     ext_downloadable modelSection
       (ext_cost modelSection
         (ext_reasoning modelSection
           (ext_specialToolFormat modelSection
             (ext_supportsFIM modelSection
               (ext_supportsSystemMessage modelSection
                 (ext_reservedOutputTokenSpace modelSection
                   (ext_contextWindow modelSection [])))))))"


section \<open>Name lookup: \<^verbatim>\<open>findModelDetails\<close>\<close>

definition normalized :: "string \<Rightarrow> string" where
  \<comment> \<open>the chain of replacements applied to the queried name and to every key\<close>
  "normalized nm =
     remove_first (cats [RChar (CHR '':''), RStar (RSet is_dot), REol])
       (remove_all (cats [plus (RSet is_digit), RChar (CHR ''b'')])
         (remove_all (cats [plus (RSet is_digit), RChar (CHR ''.''), plus (RSet is_digit)])
           (remove_all (RSet (\<lambda>c. c \<in> set ''-_.'' \<or> is_space c))
             (toLowerCase nm))))"

definition modelFamilies :: "(string \<times> string list) list" where
  "modelFamilies =
     [(''gpt4'', [''gpt-4'', ''gpt-4o'', ''gpt-4.1'', ''o4'']),
      (''gpt3'', [''gpt-3.5'', ''gpt-3'']),
      (''claude'', [''claude-3'', ''claude-3.5'', ''claude-3.7'', ''claude-3-opus'', ''claude-3-sonnet'']),
      (''llama'', [''llama3'', ''llama-3'', ''llama-3.1'', ''llama-3.2'', ''llama-3.3'']),
      (''gemini'', [''gemini-1.5'', ''gemini-2.0'', ''gemini-2.5'']),
      (''mistral'', [''mistral'', ''ministral'', ''codestral'']),
      (''qwen'', [''qwen'', ''qwen-2.5'', ''qwen-3'', ''qwq''])]"

type_synonym blocks = "(string \<times> jsobj) list"

definition own_value :: "blocks \<Rightarrow> string \<Rightarrow> jsval option" where
  "own_value modelInfoBlocks k = map_option JObj (map_of modelInfoBlocks k)"

definition in_family :: "string list \<Rightarrow> string \<Rightarrow> bool" where
  "in_family patterns nm =
     list_ex (\<lambda>pattern. includes_str (toLowerCase nm) (toLowerCase pattern)) patterns"

fun family_lookup :: "(string \<times> string list) list \<Rightarrow> string \<Rightarrow> blocks \<Rightarrow> jsval option" where
  "family_lookup [] modelName modelInfoBlocks = None"
| "family_lookup ((family, patterns) # rest) modelName modelInfoBlocks =
     (if in_family patterns modelName
      then (case find (in_family patterns) (forin modelInfoBlocks) of
              Some blockModelName \<Rightarrow> own_value modelInfoBlocks blockModelName
            | None \<Rightarrow> family_lookup rest modelName modelInfoBlocks)
      else family_lookup rest modelName modelInfoBlocks)"

definition findModelDetails :: "string \<Rightarrow> blocks \<Rightarrow> jsval option" where
  \<comment> \<open>\<open>None\<close> is \<^verbatim>\<open>null\<close>\<close>
  "findModelDetails modelName modelInfoBlocks =
     (case map_of modelInfoBlocks modelName of
        Some d \<Rightarrow> Some (JObj d)
      | None \<Rightarrow>
          if inherited modelName then Some (JBuiltin modelName)
          else (case find (\<lambda>blockModelName.
                             includes_str (normalized modelName) (normalized blockModelName)
                             \<or> includes_str (normalized blockModelName) (normalized modelName))
                          (forin modelInfoBlocks) of
                  Some blockModelName \<Rightarrow> own_value modelInfoBlocks blockModelName
                | None \<Rightarrow> family_lookup modelFamilies modelName modelInfoBlocks))"

section \<open>The keyword heuristic: \<^verbatim>\<open>getProviderFromModelName\<close>\<close>

definition getProviderFromModelName :: "string \<Rightarrow> string option" where
  "getProviderFromModelName modelName =
     (let modelLower = toLowerCase modelName in
      if includes_str modelLower ''gpt'' \<or> startsWith modelLower ''o1''
         \<or> startsWith modelLower ''o3'' \<or> startsWith modelLower ''o4'' then Some ''openAI''
      else if includes_str modelLower ''claude'' then Some ''anthropic''
      else if includes_str modelLower ''grok'' then Some ''xAI''
      else if includes_str modelLower ''gemini'' then Some ''gemini''
      else if includes_str modelLower ''llama'' then Some ''meta''
      else if includes_str modelLower ''mistral'' \<or> includes_str modelLower ''codestral''
        then Some ''mistral''
      else if includes_str modelLower ''deepseek'' then Some ''deepseek''
      else if includes_str modelLower ''qwen'' then Some ''qwen''
      else None)"

section \<open>Blocks and sections: \<^verbatim>\<open>extractModelsFromBlock\<close>\<close>

text \<open>
  An exception is a value: a function that can raise returns \<open>Inl\<close> of it. The field
  extractor is a parameter \<open>pmd\<close> of the functions that call it, so that what happens to
  an exception raised inside it can be stated; the program's own extractor,
  \<^const>\<open>parseModelDetails\<close>, raises on no text.
\<close>

datatype exn = TypeError string | Raised string

fun foldM :: "('a \<Rightarrow> 's \<Rightarrow> exn + 's) \<Rightarrow> 'a list \<Rightarrow> 's \<Rightarrow> exn + 's" where
  \<comment> \<open>a loop whose body can raise: the first exception leaves the loop\<close>
  "foldM f [] s = Inr s"
| "foldM f (x # xs) s = (case f x s of Inl e \<Rightarrow> Inl e | Inr s' \<Rightarrow> foldM f xs s')"

definition any_char :: re where
  \<comment> \<open>\<^verbatim>\<open>[\s\S]\<close>\<close>
  "any_char = RSet (\<lambda>c. True)"

definition blockRegexes :: "string \<Rightarrow> re list" where
  "blockRegexes blockName =
     [cats [lit ''const '', lit blockName, lit '' = {'',
            RGroup 1 (plus_lazy any_char), lit ''} as const''],
      cats [lit ''export const '', lit blockName, lit '' = {'',
            RGroup 1 (plus_lazy any_char), lit ''} as const'']]"

fun first_match :: "re list \<Rightarrow> string \<Rightarrow> rmatch option" where
  "first_match [] s = None"
| "first_match (r # rs) s = (case re_match r s of Some m \<Rightarrow> Some m | None \<Rightarrow> first_match rs s)"

definition modelNameRegex :: re where
  \<comment> \<open>\<^verbatim>\<open>/'([^']+)':\s*\{/g\<close>\<close>
  "modelNameRegex =
     cats [RChar (CHR 0x27), RGroup 1 (plus (RSet (none_of [CHR 0x27]))), RChar (CHR 0x27),
           RChar (CHR '':''), ws, RChar (CHR 0x7B)]"

type_synonym msection = "string \<times> string"

fun exec_loop :: "string \<Rightarrow> rmatch list \<Rightarrow> nat \<Rightarrow> string \<Rightarrow> msection list" where
  \<comment> \<open>the \<^verbatim>\<open>while\<close> loop over the matches and the section added after it; the last two
     arguments are \<^verbatim>\<open>lastIndex\<close> and \<^verbatim>\<open>currentModelName\<close>\<close>
  "exec_loop blockContent [] lastIndex currentModelName =
     (if 0 < lastIndex
      then [(currentModelName, substring blockContent lastIndex (length blockContent))]
      else [])"
| "exec_loop blockContent (m # ms) lastIndex currentModelName =
     (if 0 < lastIndex
      then [(currentModelName, substring blockContent lastIndex (index m))]
      else [])
     @ exec_loop blockContent ms (index m) (group m 1)"

definition simple_split_re :: re where
  \<comment> \<open>\<^verbatim>\<open>/(?='\w+[-\w\d.]*':)/\<close>\<close>
  "simple_split_re =
     RAhead (cats [RChar (CHR 0x27), plus (RSet is_word),
                   RStar (RSet (\<lambda>c. c = CHR ''-'' \<or> is_word c \<or> is_digit c \<or> c = CHR ''.'')),
                   RChar (CHR 0x27), RChar (CHR '':'')])"

definition section_name_re :: re where
  \<comment> \<open>\<^verbatim>\<open>/'([^']+)'\s*:/\<close>\<close>
  "section_name_re =
     cats [RChar (CHR 0x27), RGroup 1 (plus (RSet (none_of [CHR 0x27]))), RChar (CHR 0x27),
           ws, RChar (CHR '':'')]"

definition modelSections :: "string \<Rightarrow> msection list" where
  \<comment> \<open>the section-splitting step: the list \<^verbatim>\<open>modelSections\<close> of a trimmed block body\<close>
  "modelSections blockContent =
     (let sections = exec_loop blockContent (match_all modelNameRegex blockContent) 0 [] in
      if sections = []
      then concat (map (\<lambda>section.
                          case re_match section_name_re section of
                            None \<Rightarrow> []
                          | Some m \<Rightarrow> [(group m 1, section)])
                       (split_lookahead simple_split_re blockContent))
      else sections)"

definition store_section :: "(string \<Rightarrow> exn + jsobj) \<Rightarrow> msection \<Rightarrow> blocks \<Rightarrow> exn + blocks" where
  "store_section pmd sec modelInfoBlocks =
     (if fst sec \<noteq> []
      then (case pmd (snd sec) of
              Inl e \<Rightarrow> Inl e
            | Inr details \<Rightarrow> Inr (set_prop (fst sec) details modelInfoBlocks))
      else Inr modelInfoBlocks)"

definition extractModelsFromBlock_with ::
  "(string \<Rightarrow> exn + jsobj) \<Rightarrow> string \<Rightarrow> string \<Rightarrow> blocks \<Rightarrow> exn + blocks" where
  "extractModelsFromBlock_with pmd fileContent blockName modelInfoBlocks =
     (case first_match (blockRegexes blockName) fileContent of
        None \<Rightarrow> Inr modelInfoBlocks
      | Some blockMatch \<Rightarrow>
          if group blockMatch 1 = [] then Inr modelInfoBlocks
          else foldM (store_section pmd) (modelSections (trim (group blockMatch 1))) modelInfoBlocks)"

definition extractModelsFromBlock :: "string \<Rightarrow> string \<Rightarrow> blocks \<Rightarrow> exn + blocks" where
  "extractModelsFromBlock = extractModelsFromBlock_with (\<lambda>s. Inr (parseModelDetails s))"


section \<open>The pipeline: \<^verbatim>\<open>parseModelData\<close>\<close>

text \<open>
  A model is \<^verbatim>\<open>{name, capabilities}\<close>. Of a provider object the lists \<^verbatim>\<open>models\<close> and
  \<^verbatim>\<open>unlistedModels\<close> are kept (\<open>None\<close>: the property is absent); its \<^verbatim>\<open>name\<close> is its key
  and its \<^verbatim>\<open>description\<close> is read by no function here. Until the capabilities are added,
  \<^verbatim>\<open>models\<close> holds the names listed for the provider.
\<close>

record model =
  name :: string
  capabilities :: jsval

record provider =
  models :: "model list"
  unlistedModels :: "model list option"

type_synonym declared = "(string \<times> string list) list"
type_synonym providers = "(string \<times> provider) list"

subsection \<open>The declared providers and their listed models\<close>

definition providerRegex :: re where
  \<comment> \<open>\<^verbatim>\<open>/export const defaultProviderSettings = \{([^}]+)\}/s\<close>\<close>
  "providerRegex =
     cats [lit ''export const defaultProviderSettings = {'',
           RGroup 1 (plus (RSet (none_of [CHR 0x7D]))), RChar (CHR 0x7D)]"

definition provider_line_re :: re where
  \<comment> \<open>\<^verbatim>\<open>/^\s*(\w+):\s*\{/\<close>\<close>
  "provider_line_re =
     cats [RBol, ws, RGroup 1 (plus (RSet is_word)), RChar (CHR '':''), ws, RChar (CHR 0x7B)]"

definition provider_line :: "string \<Rightarrow> declared \<Rightarrow> declared" where
  "provider_line line ps =
     (case re_match provider_line_re line of
        None \<Rightarrow> ps
      | Some m \<Rightarrow> set_prop (group m 1) [] ps)"

definition declared_providers :: "string \<Rightarrow> declared" where
  "declared_providers fileContent =
     (case re_match providerRegex fileContent of
        None \<Rightarrow> []
      | Some providerMatch \<Rightarrow>
          if group providerMatch 1 = [] then []
          else fold provider_line (split_char (CHR 0x0A) [] (trim (group providerMatch 1))) [])"

definition defaultModelsRegex :: re where
  \<comment> \<open>\<^verbatim>\<open>/export const defaultModelsOfProvider = \{([^}]+)\}/s\<close>\<close>
  "defaultModelsRegex =
     cats [lit ''export const defaultModelsOfProvider = {'',
           RGroup 1 (plus (RSet (none_of [CHR 0x7D]))), RChar (CHR 0x7D)]"

definition section_provider_re :: re where
  \<comment> \<open>\<^verbatim>\<open>/(\w+):\s*\[/\<close>\<close>
  "section_provider_re =
     cats [RGroup 1 (plus (RSet is_word)), RChar (CHR '':''), ws, RChar (CHR 0x5B)]"

definition quoted_name_re :: re where
  \<comment> \<open>\<^verbatim>\<open>/'([^']+)'/g\<close>\<close>
  "quoted_name_re =
     cats [RChar (CHR 0x27), RGroup 1 (plus (RSet (none_of [CHR 0x27]))), RChar (CHR 0x27)]"

definition provider_section :: "string \<Rightarrow> declared \<Rightarrow> declared" where
  \<comment> \<open>when the name is only a member of \<^verbatim>\<open>Object.prototype\<close>, the list is assigned to
     that member and the providers do not change\<close>
  "provider_section sec ps =
     (case re_match section_provider_re sec of
        None \<Rightarrow> ps
      | Some providerMatch \<Rightarrow>
          (case map_of ps (group providerMatch 1) of
             None \<Rightarrow> ps
           | Some old \<Rightarrow>
               (case match_all quoted_name_re sec of
                  [] \<Rightarrow> ps
                | m # ms \<Rightarrow>
                    set_prop (group providerMatch 1)
                      (map (\<lambda>q. remove_all (RChar (CHR 0x27)) (matched q)) (m # ms)) ps)))"

definition default_models :: "string \<Rightarrow> declared \<Rightarrow> declared" where
  "default_models fileContent ps =
     (case re_match defaultModelsRegex fileContent of
        None \<Rightarrow> ps
      | Some defaultModelsMatch \<Rightarrow>
          if group defaultModelsMatch 1 = [] then ps
          else fold provider_section
                 (split_pair (CHR 0x5D) (CHR '','') [] (trim (group defaultModelsMatch 1))) ps)"

subsection \<open>The capability blocks\<close>

definition allModelBlocksRegex :: re where
  \<comment> \<open>\<^verbatim>\<open>/const\s+(\w+ModelOptions\w*)\s*=\s*\{([^}]+)\}\s*as\s*const/g\<close>\<close>
  "allModelBlocksRegex =
     cats [lit ''const'', plus (RSet is_space),
           RGroup 1 (cats [plus (RSet is_word), lit ''ModelOptions'', RStar (RSet is_word)]),
           ws, RChar (CHR ''=''), ws, RChar (CHR 0x7B),
           RGroup 2 (plus (RSet (none_of [CHR 0x7D]))), RChar (CHR 0x7D),
           ws, lit ''as'', ws, lit ''const'']"

definition known_blocks :: "string list" where
  "known_blocks =
     [''openAIModelOptions'', ''anthropicModelOptions'', ''xAIModelOptions'',
      ''geminiModelOptions'', ''openSourceModelOptions_assumingOAICompat'',
      ''deepseekModelOptions'', ''mistralModelOptions'', ''groqModelOptions'',
      ''ollamaModelOptions'', ''openRouterModelOptions_assumingOpenAICompat'',
      ''googleVertexModelOptions'', ''microsoftAzureModelOptions'']"

definition block_names :: "string \<Rightarrow> string list" where
  \<comment> \<open>the blocks the program extracts, in order: those the expression above finds, then
     the known ones\<close>
  "block_names fileContent =
     map (\<lambda>m. group m 1) (match_all allModelBlocksRegex fileContent) @ known_blocks"

definition extract_blocks_with :: "(string \<Rightarrow> exn + jsobj) \<Rightarrow> string \<Rightarrow> exn + blocks" where
  "extract_blocks_with pmd fileContent =
     foldM (extractModelsFromBlock_with pmd fileContent) (block_names fileContent) []"

subsection \<open>Providers and models\<close>

text \<open>
  \<open>cmp\<close> is the host's \<^verbatim>\<open>localeCompare\<close>: negative, zero or positive. The host's sort is
  stable, and for a consistent comparison such as this one its result is the one of the
  insertion sort below.
\<close>

fun scan_models :: "string \<Rightarrow> string list \<Rightarrow> exn + string list" where
  \<comment> \<open>the names pushed for a provider with no listed model; \<^verbatim>\<open>extraModels\<close> is empty, so
     \<^verbatim>\<open>extraModels[providerName]\<close> is a member of \<^verbatim>\<open>Object.prototype\<close> or undefined, and
     calling \<^verbatim>\<open>includes\<close> of such a member raises\<close>
  "scan_models providerName [] = Inr []"
| "scan_models providerName (modelName # rest) =
     (if includes_str (toLowerCase modelName) (toLowerCase providerName)
      then (case scan_models providerName rest of
              Inl e \<Rightarrow> Inl e
            | Inr ns \<Rightarrow> Inr (modelName # ns))
      else if inherited providerName
      then Inl (TypeError ''extraModels[providerName].includes is not a function'')
      else scan_models providerName rest)"

definition with_capabilities :: "blocks \<Rightarrow> string \<Rightarrow> model" where
  "with_capabilities modelInfoBlocks modelName =
     \<lparr>name = modelName,
      capabilities = (case findModelDetails modelName modelInfoBlocks of
                        Some d \<Rightarrow> d
                      | None \<Rightarrow> JObj [])\<rparr>"

fun unique_models :: "string list \<Rightarrow> model list \<Rightarrow> model list" where
  \<comment> \<open>the filter on \<^verbatim>\<open>uniqueModels\<close>; the first argument lists its own keys\<close>
  "unique_models seen [] = []"
| "unique_models seen (m # ms) =
     (if name m \<in> set seen \<or> inherited (name m) then unique_models seen ms
      else m # unique_models (name m # seen) ms)"

fun insert_model :: "(string \<Rightarrow> string \<Rightarrow> int) \<Rightarrow> model \<Rightarrow> model list \<Rightarrow> model list" where
  "insert_model cmp x [] = [x]"
| "insert_model cmp x (y # ys) =
     (if cmp (name x) (name y) < 0 then x # y # ys else y # insert_model cmp x ys)"

definition sort_models :: "(string \<Rightarrow> string \<Rightarrow> int) \<Rightarrow> model list \<Rightarrow> model list" where
  "sort_models cmp ms = foldl (\<lambda>sorted m. insert_model cmp m sorted) [] ms"

definition provider_models ::
  "(string \<Rightarrow> string \<Rightarrow> int) \<Rightarrow> blocks \<Rightarrow> string \<Rightarrow> string list \<Rightarrow> exn + model list" where
  \<comment> \<open>one turn of the first loop over the providers\<close>
  "provider_models cmp modelInfoBlocks providerName listed =
     (case (if listed \<noteq> [] then Inr listed
            else scan_models providerName (forin modelInfoBlocks)) of
        Inl e \<Rightarrow> Inl e
      | Inr names \<Rightarrow>
          Inr (sort_models cmp (unique_models [] (map (with_capabilities modelInfoBlocks) names))))"

definition add_models ::
  "(string \<Rightarrow> string \<Rightarrow> int) \<Rightarrow> blocks \<Rightarrow> declared \<Rightarrow> string \<Rightarrow> providers \<Rightarrow> exn + providers" where
  "add_models cmp modelInfoBlocks decl providerName ps =
     (case map_of decl providerName of
        None \<Rightarrow> Inr ps
      | Some listed \<Rightarrow>
          (case provider_models cmp modelInfoBlocks providerName listed of
             Inl e \<Rightarrow> Inl e
           | Inr ms \<Rightarrow> Inr (set_prop providerName \<lparr>models = ms, unlistedModels = None\<rparr> ps)))"

definition assigned :: "providers \<Rightarrow> string \<Rightarrow> bool" where
  "assigned ps modelName =
     list_ex (\<lambda>providerName.
                case map_of ps providerName of
                  None \<Rightarrow> False
                | Some p \<Rightarrow> list_ex (\<lambda>m. name m = modelName) (models p))
             (forin ps)"

definition push_unlisted :: "model \<Rightarrow> provider \<Rightarrow> provider" where
  "push_unlisted m p =
     p\<lparr>unlistedModels := Some ((case unlistedModels p of None \<Rightarrow> [] | Some us \<Rightarrow> us) @ [m])\<rparr>"

definition block_entry :: "blocks \<Rightarrow> string \<Rightarrow> model" where
  \<comment> \<open>\<^verbatim>\<open>{ name: modelName, capabilities: modelInfoBlocks[modelName] || {} }\<close>\<close>
  "block_entry modelInfoBlocks modelName =
     \<lparr>name = modelName,
      capabilities = (case map_of modelInfoBlocks modelName of
                        Some d \<Rightarrow> JObj d
                      | None \<Rightarrow> JObj [])\<rparr>"

definition place_unassigned :: "blocks \<Rightarrow> string \<Rightarrow> providers \<times> model list \<Rightarrow> providers \<times> model list" where
  \<comment> \<open>one turn of the loop over the entries; the second component is
     \<^verbatim>\<open>unassignedModels['other']\<close>\<close>
  "place_unassigned modelInfoBlocks modelName st =
     (if assigned (fst st) modelName then st
      else (case getProviderFromModelName modelName of
              None \<Rightarrow> (fst st, snd st @ [block_entry modelInfoBlocks modelName])
            | Some providerHint \<Rightarrow>
                (case map_of (fst st) providerHint of
                   None \<Rightarrow> (fst st, snd st @ [block_entry modelInfoBlocks modelName])
                 | Some p \<Rightarrow>
                     (set_prop providerHint
                        (push_unlisted (block_entry modelInfoBlocks modelName) p) (fst st),
                      snd st))))"

definition add_other :: "providers \<times> model list \<Rightarrow> providers" where
  "add_other st =
     (if snd st \<noteq> [] then set_prop ''other'' \<lparr>models = snd st, unlistedModels = None\<rparr> (fst st)
      else fst st)"

definition merge_unlisted :: "provider \<Rightarrow> provider" where
  "merge_unlisted p =
     (case unlistedModels p of
        None \<Rightarrow> p
      | Some us \<Rightarrow> \<lparr>models = models p @ us, unlistedModels = None\<rparr>)"

definition placeholder :: "string \<Rightarrow> model" where
  "placeholder providerName =
     \<lparr>name = ''No models listed for '' @ providerName, capabilities = JObj []\<rparr>"

definition fill_empty :: "string \<times> provider \<Rightarrow> string \<times> provider" where
  "fill_empty kp =
     (if models (snd kp) = [] then (fst kp, (snd kp)\<lparr>models := [placeholder (fst kp)]\<rparr>) else kp)"

definition first_loop ::
  "(string \<Rightarrow> string \<Rightarrow> int) \<Rightarrow> blocks \<Rightarrow> declared \<Rightarrow> exn + providers" where
  \<comment> \<open>the loop that gives every declared provider its models\<close>
  "first_loop cmp modelInfoBlocks decl =
     foldM (add_models cmp modelInfoBlocks decl) (forin decl)
       (map (\<lambda>kv. (fst kv, \<lparr>models = [], unlistedModels = None\<rparr>)) decl)"

definition unassigned :: "blocks \<Rightarrow> providers \<Rightarrow> providers \<times> model list" where
  \<comment> \<open>the loop over the entries that no provider has\<close>
  "unassigned modelInfoBlocks ps =
     fold (place_unassigned modelInfoBlocks) (forin modelInfoBlocks) (ps, [])"

definition associate ::
  "(string \<Rightarrow> string \<Rightarrow> int) \<Rightarrow> blocks \<Rightarrow> declared \<Rightarrow> exn + providers" where
  \<comment> \<open>from the first loop over the providers to the returned object\<close>
  "associate cmp modelInfoBlocks decl =
     (case first_loop cmp modelInfoBlocks decl of
        Inl e \<Rightarrow> Inl e
      | Inr ps \<Rightarrow>
          Inr (map fill_empty
                 (map (\<lambda>kp. (fst kp, merge_unlisted (snd kp)))
                    (add_other (unassigned modelInfoBlocks ps)))))"

definition parseModelData_try ::
  "(string \<Rightarrow> exn + jsobj) \<Rightarrow> (string \<Rightarrow> string \<Rightarrow> int) \<Rightarrow> string \<Rightarrow> exn + providers" where
  \<comment> \<open>the body of the \<^verbatim>\<open>try\<close>\<close>
  "parseModelData_try pmd cmp fileContent =
     (case extract_blocks_with pmd fileContent of
        Inl e \<Rightarrow> Inl e
      | Inr modelInfoBlocks \<Rightarrow>
          associate cmp modelInfoBlocks (default_models fileContent (declared_providers fileContent)))"

definition parseModelData_with ::
  "(string \<Rightarrow> exn + jsobj) \<Rightarrow> (string \<Rightarrow> string \<Rightarrow> int) \<Rightarrow> string \<Rightarrow> exn + providers" where
  \<comment> \<open>\<open>Inr ps\<close>: the call returns \<^verbatim>\<open>{ providers: ps }\<close>; \<open>Inl e\<close>: it raises \<open>e\<close>\<close>
  "parseModelData_with pmd cmp fileContent =
     (case parseModelData_try pmd cmp fileContent of
        Inr ps \<Rightarrow> Inr ps
      | Inl e \<Rightarrow> Inr [])"

definition parseModelData :: "(string \<Rightarrow> string \<Rightarrow> int) \<Rightarrow> string \<Rightarrow> exn + providers" where
  "parseModelData = parseModelData_with (\<lambda>s. Inr (parseModelDetails s))"


section \<open>Documents and functions for the examples\<close>

text \<open>
  A comparison to run the examples with: it orders strings by their code units, which
  is the order \<^verbatim>\<open>localeCompare\<close> gives the names used below.
\<close>

fun compare_units :: "string \<Rightarrow> string \<Rightarrow> int" where
  "compare_units [] [] = 0"
| "compare_units [] (b # bs) = - 1"
| "compare_units (a # as) [] = 1"
| "compare_units (a # as) (b # bs) =
     (if a = b then compare_units as bs
      else if (of_char a :: nat) < of_char b then - 1 else 1)"


definition doc_listed :: string where
  \<comment> \<open>one provider with one listed model, one block with that model and another\<close>
  "doc_listed =
     ''export const defaultProviderSettings = {\<newline>openAI: {\<newline>},\<newline>}\<newline>export const defaultModelsOfProvider = {\<newline>openAI: ['gpt-b'],\<newline>}\<newline>const openAIModelOptions = { // c\<newline>'gpt-b': {},\<newline>'gpt-a': {},\<newline>} as const''"

definition doc_two_providers :: string where
  \<comment> \<open>two providers, and one block with one entry\<close>
  "doc_two_providers =
     ''export const defaultProviderSettings = {\<newline>anthropic: {\<newline>},\<newline>openAI: {\<newline>},\<newline>}\<newline>const xAIModelOptions = { //\<newline>'llama-3': {},\<newline>} as const''"

definition doc_duplicates :: string where
  \<comment> \<open>one provider whose list names the same model twice\<close>
  "doc_duplicates =
     ''export const defaultProviderSettings = {\<newline>openAI: {\<newline>},\<newline>}\<newline>export const defaultModelsOfProvider = {\<newline>openAI: ['constructor', 'constructor'],\<newline>}''"

definition doc_raising :: string where
  \<comment> \<open>a provider named like a member of \<^verbatim>\<open>Object.prototype\<close>, and one entry\<close>
  "doc_raising =
     ''export const defaultProviderSettings = {\<newline>constructor: {\<newline>},\<newline>}\<newline>const xAIModelOptions = { //\<newline>'grok-2': {},\<newline>} as const''"

fun first_char :: "re \<Rightarrow> char option" where
  \<comment> \<open>the character every match of the expression starts with, when it is known\<close>
  "first_char (RChar c) = Some c"
| "first_char (RCat a b) = first_char a"
| "first_char (RGroup k r) = first_char r"
| "first_char r = None"


section \<open>Notions for the statements\<close>

definition unclassified :: "providers \<Rightarrow> string \<Rightarrow> bool" where
  \<comment> \<open>the entries the loop over the entries sends to \<^verbatim>\<open>other\<close>: no provider has the entry,
     and the keyword heuristic names no provider or one that is not there\<close>
  "unclassified ps modelName =
     (\<not> assigned ps modelName
      \<and> (case getProviderFromModelName modelName of
            None \<Rightarrow> True
          | Some providerHint \<Rightarrow> map_of ps providerHint = None))"

definition same_models :: "providers \<Rightarrow> providers \<Rightarrow> bool" where
  \<comment> \<open>the same providers in the same order, each with the same \<^verbatim>\<open>models\<close>\<close>
  "same_models ps ps' =
     (map fst ps' = map fst ps
      \<and> (\<forall>k. map_option models (map_of ps' k) = map_option models (map_of ps k)))"

definition unlisted :: "provider \<Rightarrow> model list" where
  \<comment> \<open>\<^verbatim>\<open>unlistedModels\<close>, the empty list when the property is absent\<close>
  "unlisted p = (case unlistedModels p of None \<Rightarrow> [] | Some us \<Rightarrow> us)"

definition apart :: "providers \<Rightarrow> string set \<Rightarrow> providers \<Rightarrow> bool" where
  \<comment> \<open>what the loop over the entries keeps true: the providers \<open>ps'\<close> have the models of
     \<open>ps\<close>, and their unlisted models have different names, taken from \<open>D\<close>, that no
     provider of \<open>ps\<close> has among its models\<close>
  "apart ps D ps' =
     (same_models ps ps'
      \<and> (\<forall>kp\<in>set ps'. distinct (map name (unlisted (snd kp)))
              \<and> set (map name (unlisted (snd kp))) \<subseteq> D
              \<and> (\<forall>n\<in>set (map name (unlisted (snd kp))). \<not> assigned ps n)))"

section \<open>Evaluating the expressions\<close>

text \<open>
  A match of an expression that starts with a fixed character starts at that character,
  so the search can pass over every other position. The examples are evaluated with the
  two equations so obtained.
\<close>

lemma rm_first_char:
  "first_char r = Some c \<Longrightarrow> s = [] \<or> hd s \<noteq> c \<Longrightarrow> rm n r (l, s, g) = []"
proof (induction r arbitrary: l s g)
  case (RChar x)
  then show ?case by (cases s) auto
qed simp_all

lemma match_here_skip:
  "first_char r = Some c \<Longrightarrow> d \<noteq> c \<Longrightarrow> match_here r n l (d # cs) = None"
  by (simp add: match_here_def rm_first_char)

lemma search_skip:
  "search r n l (d # cs) =
     (if first_char r = None \<or> first_char r = Some d
      then (case match_here r n l (d # cs) of Some m \<Rightarrow> Some m | None \<Rightarrow> search r n (l - 1) cs)
      else search r n (l - 1) cs)"
  by (cases "first_char r") (auto simp: match_here_skip)

lemma scan_skip:
  "scan r n skip l (d # cs) =
     (if 0 < skip then scan r n (skip - 1) (l - 1) cs
      else if first_char r = None \<or> first_char r = Some d
      then (case match_here r n l (d # cs) of
              Some m \<Rightarrow> m # scan r n (length (matched m) - 1) (l - 1) cs
            | None \<Rightarrow> scan r n 0 (l - 1) cs)
      else scan r n 0 (l - 1) cs)"
  by (cases "first_char r") (auto simp: match_here_skip)

declare search.simps(1) [code] search_skip [code]

declare scan.simps(1) [code] scan_skip [code]

subsection \<open>Stripping and parsing digits\<close>





lemma map_of_set_prop: "map_of (set_prop k v obj) k' = (if k' = k then Some v else map_of obj k')"
  by (simp add: set_prop_def update_conv')


subsection \<open>The fields do not overwrite each other\<close>



lemma ext_price_frame: "key \<noteq> k \<Longrightarrow> map_of (ext_price field key v d) k = map_of d k"
  by (simp add: ext_price_def map_of_set_prop split: option.splits)












subsection \<open>Exceptions in the loops\<close>





subsection \<open>The loop over the entries that no provider has\<close>

lemma same_models_refl: "same_models ps ps"
  by (simp add: same_models_def)

lemma same_models_assigned:
  assumes "same_models ps ps'"
  shows "assigned ps' m = assigned ps m"
proof -
  from assms have keys: "forin ps' = forin ps"
    by (simp add: same_models_def forin_def)
  have "(case map_of ps' k of None \<Rightarrow> False | Some p \<Rightarrow> list_ex (\<lambda>x. name x = m) (models p))
      = (case map_of ps k of None \<Rightarrow> False | Some p \<Rightarrow> list_ex (\<lambda>x. name x = m) (models p))" for k
  proof -
    from assms have "map_option models (map_of ps' k) = map_option models (map_of ps k)"
      by (simp add: same_models_def)
    then show ?thesis by (cases "map_of ps' k"; cases "map_of ps k") auto
  qed
  then show ?thesis by (simp add: assigned_def keys)
qed

lemma same_models_absent:
  assumes "same_models ps ps'"
  shows "(map_of ps' k = None) = (map_of ps k = None)"
  using assms by (simp add: same_models_def map_of_eq_None_iff) (metis list.set_map)

lemma same_models_push:
  assumes "same_models ps ps'" and "map_of ps' h = Some p"
  shows "same_models ps (set_prop h (push_unlisted m p) ps')"
proof -
  from assms(2) have "h \<in> fst ` set ps'"
    by (metis map_of_SomeD fst_conv image_eqI)
  then have "map fst (AList.update h (push_unlisted m p) ps') = map fst ps'"
    by (simp add: update_keys)
  moreover have "map_option models (map_of (AList.update h (push_unlisted m p) ps') k)
      = map_option models (map_of ps' k)" for k
    using assms(2) by (simp add: update_conv' push_unlisted_def)
  ultimately show ?thesis using assms(1) by (simp add: same_models_def set_prop_def)
qed

lemma place_unassigned_step:
  assumes "same_models ps (fst st)"
  shows "same_models ps (fst (place_unassigned bl k st))
         \<and> snd (place_unassigned bl k st)
             = snd st @ (if unclassified ps k then [block_entry bl k] else [])"
proof (cases "assigned ps k")
  case True
  with assms show ?thesis
    by (simp add: place_unassigned_def unclassified_def same_models_assigned)
next
  case False
  note unassigned = this
  show ?thesis
  proof (cases "getProviderFromModelName k")
    case None
    with assms unassigned show ?thesis
      by (simp add: place_unassigned_def unclassified_def same_models_assigned)
  next
    case (Some h)
    show ?thesis
    proof (cases "map_of (fst st) h")
      case None
      with same_models_absent [OF assms, of h] have "map_of ps h = None" by simp
      with assms unassigned Some None show ?thesis
        by (simp add: place_unassigned_def unclassified_def same_models_assigned)
    next
      case (Some p)
      with same_models_absent [OF assms, of h] have "map_of ps h \<noteq> None" by simp
      with assms unassigned \<open>getProviderFromModelName k = Some h\<close> Some show ?thesis
        by (simp add: place_unassigned_def unclassified_def same_models_assigned
              same_models_push)
    qed
  qed
qed

lemma place_unassigned_fold:
  assumes "same_models ps (fst st)"
  shows "same_models ps (fst (fold (place_unassigned bl) ks st))
         \<and> snd (fold (place_unassigned bl) ks st)
             = snd st @ map (block_entry bl) (filter (unclassified ps) ks)"
  using assms
proof (induction ks arbitrary: st)
  case Nil
  then show ?case by simp
next
  case (Cons k ks)
  from place_unassigned_step [OF Cons.prems, of bl k]
  have a: "same_models ps (fst (place_unassigned bl k st))"
    and b: "snd (place_unassigned bl k st)
            = snd st @ (if unclassified ps k then [block_entry bl k] else [])"
    by simp_all
  from Cons.IH [OF a] b show ?case by simp
qed

lemma unassigned_result:
  "same_models ps (fst (unassigned bl ps))
   \<and> snd (unassigned bl ps) = map (block_entry bl) (filter (unclassified ps) (forin bl))"
  using place_unassigned_fold [of ps "(ps, [])" bl "forin bl"]
  by (simp add: unassigned_def same_models_refl)

lemma map_of_keyed_map:
  "map_of (map (\<lambda>kp. (fst kp, f (fst kp) (snd kp))) xs) k = map_option (f k) (map_of xs k)"
  by (induction xs) auto


lemma add_models_keys:
  assumes "add_models cmp bl decl k ps = Inr ps'" and "map fst ps = map fst decl"
  shows "map fst ps' = map fst decl"
proof (cases "map_of decl k")
  case None
  with assms show ?thesis by (simp add: add_models_def)
next
  case (Some listed)
  then have "k \<in> fst ` set decl"
    by (metis map_of_SomeD fst_conv image_eqI)
  with assms(2) have "k \<in> fst ` set ps" by (metis list.set_map)
  then have "map fst (AList.update k v ps) = map fst ps" for v
    by (simp add: update_keys)
  with assms Some show ?thesis
    by (cases "provider_models cmp bl k listed") (auto simp: add_models_def set_prop_def)
qed

lemma foldM_add_models_keys:
  assumes "foldM (add_models cmp bl decl) ks ps = Inr ps'" and "map fst ps = map fst decl"
  shows "map fst ps' = map fst decl"
  using assms
proof (induction ks arbitrary: ps)
  case Nil
  then show ?case by simp
next
  case (Cons k ks)
  then show ?case
    by (cases "add_models cmp bl decl k ps") (auto dest: add_models_keys)
qed

lemma first_loop_keys:
  "first_loop cmp bl decl = Inr ps \<Longrightarrow> map fst ps = map fst decl"
  unfolding first_loop_def
  by (erule foldM_add_models_keys) (simp add: comp_def)

lemma fill_empty_models: "models (snd (fill_empty kp)) \<noteq> []"
  by (simp add: fill_empty_def)

subsection \<open>The names of the models of a provider\<close>

lemma set_update_cases:
  "kv \<in> set (AList.update k v al) \<Longrightarrow> kv = (k, v) \<or> kv \<in> set al"
  by (induction al) (auto split: if_splits)

lemma map_of_member:
  "distinct (map fst al) \<Longrightarrow> (k, v) \<in> set al \<Longrightarrow> map_of al k = Some v"
  by simp

lemma forin_set: "set (forin obj) = fst ` set obj"
  by (auto simp: forin_def)

lemma forin_distinct: "distinct (map fst obj) \<Longrightarrow> distinct (forin obj)"
  by (auto simp: forin_def)

lemma unique_models_names:
  "distinct (map name (unique_models seen ms))
   \<and> set (map name (unique_models seen ms)) \<inter> set seen = {}"
proof (induction ms arbitrary: seen)
  case Nil
  then show ?case by simp
next
  case (Cons m ms)
  show ?case
  proof (cases "name m \<in> set seen \<or> inherited (name m)")
    case True
    with Cons.IH [of seen] show ?thesis by simp
  next
    case False
    with Cons.IH [of "name m # seen"] show ?thesis by auto
  qed
qed

lemma insert_model_names:
  "set (map name (insert_model cmp x ys)) = insert (name x) (set (map name ys))
   \<and> (distinct (map name (insert_model cmp x ys))
        = (name x \<notin> set (map name ys) \<and> distinct (map name ys)))"
  by (induction ys) auto

lemma foldl_insert_model_names:
  "set (map name (foldl (\<lambda>sorted m. insert_model cmp m sorted) acc ms))
     = set (map name acc) \<union> set (map name ms)
   \<and> (distinct (map name (foldl (\<lambda>sorted m. insert_model cmp m sorted) acc ms))
        = distinct (map name (acc @ ms)))"
proof (induction ms arbitrary: acc)
  case Nil
  then show ?case by simp
next
  case (Cons m ms)
  from Cons.IH [of "insert_model cmp m acc"] insert_model_names [of cmp m acc]
  show ?case by auto
qed

lemma sort_models_names:
  "set (map name (sort_models cmp ms)) = set (map name ms)
   \<and> distinct (map name (sort_models cmp ms)) = distinct (map name ms)"
  using foldl_insert_model_names [of cmp "[]" ms] by (simp add: sort_models_def)

lemma provider_models_distinct:
  "provider_models cmp bl k listed = Inr ms \<Longrightarrow> distinct (map name ms)"
  by (auto simp: provider_models_def sort_models_names unique_models_names split: sum.splits)


lemma add_models_tidy:
  assumes "add_models cmp bl decl k ps = Inr ps'"
    and "\<forall>kp\<in>set ps. distinct (map name (models (snd kp))) \<and> unlistedModels (snd kp) = None"
  shows "\<forall>kp\<in>set ps'. distinct (map name (models (snd kp))) \<and> unlistedModels (snd kp) = None"
proof (cases "map_of decl k")
  case None
  with assms show ?thesis by (simp add: add_models_def)
next
  case (Some listed)
  show ?thesis
  proof (cases "provider_models cmp bl k listed")
    case (Inl e)
    with assms(1) Some show ?thesis by (simp add: add_models_def)
  next
    case (Inr ms)
    with assms(1) Some
    have ps': "ps' = AList.update k \<lparr>models = ms, unlistedModels = None\<rparr> ps"
      by (simp add: add_models_def set_prop_def)
    from Inr have "distinct (map name ms)" by (rule provider_models_distinct)
    with assms(2) show ?thesis
      unfolding ps' by (auto dest!: set_update_cases)
  qed
qed

lemma foldM_add_models_tidy:
  assumes "foldM (add_models cmp bl decl) ks ps = Inr ps'"
    and "\<forall>kp\<in>set ps. distinct (map name (models (snd kp))) \<and> unlistedModels (snd kp) = None"
  shows "\<forall>kp\<in>set ps'. distinct (map name (models (snd kp))) \<and> unlistedModels (snd kp) = None"
  using assms
proof (induction ks arbitrary: ps)
  case Nil
  then show ?case by simp
next
  case (Cons k ks)
  show ?case
  proof (cases "add_models cmp bl decl k ps")
    case (Inl e)
    with Cons.prems(1) show ?thesis by simp
  next
    case (Inr ps1)
    from add_models_tidy [OF Inr Cons.prems(2)] Cons.prems(1) Inr Cons.IH [of ps1]
    show ?thesis by simp
  qed
qed

lemma first_loop_tidy:
  assumes "first_loop cmp bl decl = Inr ps"
  shows "\<forall>kp\<in>set ps. distinct (map name (models (snd kp))) \<and> unlistedModels (snd kp) = None"
  using assms unfolding first_loop_def
  by (rule foldM_add_models_tidy) auto

lemma names_assigned:
  assumes "distinct (map fst ps)" and "(k, p) \<in> set ps" and "m \<in> set (models p)"
  shows "assigned ps (name m)"
proof -
  from assms(1,2) have "map_of ps k = Some p" by simp
  moreover from assms(2) have "k \<in> set (forin ps)" by (force simp: forin_set)
  ultimately show ?thesis using assms(3)
    by (auto simp: assigned_def list_ex_iff intro!: bexI [of _ k])
qed

lemma unlisted_push: "unlisted (push_unlisted e p) = unlisted p @ [e]"
  by (simp add: unlisted_def push_unlisted_def)

lemma apart_mono: "apart ps D ps' \<Longrightarrow> D \<subseteq> E \<Longrightarrow> apart ps E ps'"
  by (auto simp: apart_def)

lemma apart_push:
  assumes "apart ps D ps'" and "map_of ps' h = Some p" and "k \<notin> D" and "\<not> assigned ps k"
  shows "apart ps (insert k D) (set_prop h (push_unlisted (block_entry bl k) p) ps')"
proof -
  from assms(1) have same: "same_models ps ps'" by (simp add: apart_def)
  from assms(2) have mem: "(h, p) \<in> set ps'" by (rule map_of_SomeD)
  from assms(1) have "\<forall>kp\<in>set ps'. distinct (map name (unlisted (snd kp)))
      \<and> set (map name (unlisted (snd kp))) \<subseteq> D
      \<and> (\<forall>n\<in>set (map name (unlisted (snd kp))). \<not> assigned ps n)"
    by (simp add: apart_def)
  from bspec [OF this mem]
  have p: "distinct (map name (unlisted p))"
    "set (map name (unlisted p)) \<subseteq> D" "\<forall>n\<in>set (map name (unlisted p)). \<not> assigned ps n"
    by simp_all
  have new: "distinct (map name (unlisted (push_unlisted (block_entry bl k) p)))
      \<and> set (map name (unlisted (push_unlisted (block_entry bl k) p))) \<subseteq> insert k D
      \<and> (\<forall>n\<in>set (map name (unlisted (push_unlisted (block_entry bl k) p))). \<not> assigned ps n)"
    using p assms(3,4) by (auto simp: unlisted_push block_entry_def)
  have "\<forall>kp\<in>set (AList.update h (push_unlisted (block_entry bl k) p) ps').
          distinct (map name (unlisted (snd kp)))
          \<and> set (map name (unlisted (snd kp))) \<subseteq> insert k D
          \<and> (\<forall>n\<in>set (map name (unlisted (snd kp))). \<not> assigned ps n)"
  proof
    fix kp
    assume "kp \<in> set (AList.update h (push_unlisted (block_entry bl k) p) ps')"
    then consider "kp = (h, push_unlisted (block_entry bl k) p)" | "kp \<in> set ps'"
      by (auto dest: set_update_cases)
    then show "distinct (map name (unlisted (snd kp)))
          \<and> set (map name (unlisted (snd kp))) \<subseteq> insert k D
          \<and> (\<forall>n\<in>set (map name (unlisted (snd kp))). \<not> assigned ps n)"
    proof cases
      case 1
      with new show ?thesis by simp
    next
      case 2
      with assms(1) show ?thesis by (auto simp: apart_def)
    qed
  qed
  with same_models_push [OF same assms(2)] show ?thesis
    by (simp add: apart_def set_prop_def)
qed

lemma place_unassigned_apart:
  assumes "apart ps D (fst st)" and "k \<notin> D"
  shows "apart ps (insert k D) (fst (place_unassigned bl k st))"
proof -
  from assms(1) have same: "same_models ps (fst st)" by (simp add: apart_def)
  have keep: "apart ps (insert k D) (fst st)"
    using assms(1) by (rule apart_mono) auto
  show ?thesis
  proof (cases "assigned ps k")
    case True
    with keep same show ?thesis
      by (simp add: place_unassigned_def same_models_assigned)
  next
    case False
    show ?thesis
    proof (cases "getProviderFromModelName k")
      case None
      with keep same False show ?thesis
        by (simp add: place_unassigned_def same_models_assigned)
    next
      case (Some h)
      show ?thesis
      proof (cases "map_of (fst st) h")
        case None
        with keep same False Some show ?thesis
          by (simp add: place_unassigned_def same_models_assigned)
      next
        case (Some p)
        from apart_push [OF assms(1) Some assms(2) False, of bl]
        show ?thesis
          using same False \<open>getProviderFromModelName k = Some h\<close> Some
          by (simp add: place_unassigned_def same_models_assigned)
      qed
    qed
  qed
qed

lemma fold_place_unassigned_apart:
  assumes "apart ps D (fst st)" and "distinct ks" and "set ks \<inter> D = {}"
  shows "apart ps (D \<union> set ks) (fst (fold (place_unassigned bl) ks st))"
  using assms
proof (induction ks arbitrary: D st)
  case Nil
  then show ?case by simp
next
  case (Cons k ks)
  from Cons.prems have k: "k \<notin> D" by simp
  from place_unassigned_apart [OF Cons.prems(1) k, of bl]
  have "apart ps (insert k D) (fst (place_unassigned bl k st))" .
  moreover from Cons.prems have "distinct ks" "set ks \<inter> insert k D = {}" by auto
  ultimately have "apart ps (insert k D \<union> set ks)
      (fst (fold (place_unassigned bl) ks (place_unassigned bl k st)))"
    by (rule Cons.IH)
  then show ?case by simp
qed

lemma apart_start:
  assumes "\<forall>kp\<in>set ps. unlistedModels (snd kp) = None"
  shows "apart ps {} ps"
  using assms by (simp add: apart_def same_models_refl unlisted_def)

lemma unassigned_apart:
  assumes "\<forall>kp\<in>set ps. unlistedModels (snd kp) = None" and "distinct (map fst bl)"
  shows "apart ps (set (forin bl)) (fst (unassigned bl ps))"
  using fold_place_unassigned_apart [of ps "{}" "(ps, [])" "forin bl" bl]
    apart_start [OF assms(1)] forin_distinct [OF assms(2)]
  by (simp add: unassigned_def)


lemma foldM_invariant:
  assumes "foldM f xs s = Inr s'" and "P s" and "\<And>x t t'. f x t = Inr t' \<Longrightarrow> P t \<Longrightarrow> P t'"
  shows "P s'"
  using assms(1,2)
proof (induction xs arbitrary: s)
  case Nil
  then show ?case by simp
next
  case (Cons x xs)
  show ?case
  proof (cases "f x s")
    case (Inl e)
    with Cons.prems(1) show ?thesis by simp
  next
    case (Inr t)
    with Cons.prems assms(3) [OF Inr] Cons.IH [of t] show ?thesis by simp
  qed
qed

lemma fold_invariant:
  assumes "P s" and "\<And>x t. P t \<Longrightarrow> P (f x t)"
  shows "P (fold f xs s)"
  using assms(1) by (induction xs arbitrary: s) (simp_all add: assms(2))

lemma set_prop_keys: "distinct (map fst (set_prop k v al)) = distinct (map fst al)"
  by (auto simp: set_prop_def update_keys)

lemma store_section_keys:
  assumes "store_section pmd sec bl = Inr bl'" and "distinct (map fst bl)"
  shows "distinct (map fst bl')"
proof (cases "fst sec \<noteq> []")
  case True
  with assms show ?thesis
    by (cases "pmd (snd sec)") (auto simp: store_section_def set_prop_keys)
next
  case False
  with assms show ?thesis by (simp add: store_section_def)
qed

lemma extractModelsFromBlock_keys:
  assumes "extractModelsFromBlock_with pmd fileContent b bl = Inr bl'" and "distinct (map fst bl)"
  shows "distinct (map fst bl')"
proof (cases "first_match (blockRegexes b) fileContent")
  case None
  with assms show ?thesis by (simp add: extractModelsFromBlock_with_def)
next
  case (Some m)
  show ?thesis
  proof (cases "group m 1 = []")
    case True
    with assms Some show ?thesis by (simp add: extractModelsFromBlock_with_def)
  next
    case False
    with assms(1) Some
    have "foldM (store_section pmd) (modelSections (trim (group m 1))) bl = Inr bl'"
      by (simp add: extractModelsFromBlock_with_def)
    from foldM_invariant [where P = "\<lambda>s. distinct (map fst s)", OF this assms(2)]
    show ?thesis by (simp add: store_section_keys)
  qed
qed

lemma extract_blocks_keys:
  assumes "extract_blocks_with pmd fileContent = Inr bl"
  shows "distinct (map fst bl)"
proof -
  from assms
  have "foldM (extractModelsFromBlock_with pmd fileContent) (block_names fileContent) [] = Inr bl"
    by (simp add: extract_blocks_with_def)
  from foldM_invariant [where P = "\<lambda>s. distinct (map fst s)", OF this]
  show ?thesis by (simp add: extractModelsFromBlock_keys)
qed

lemma provider_line_keys: "distinct (map fst ps) \<Longrightarrow> distinct (map fst (provider_line line ps))"
  by (cases "re_match provider_line_re line") (simp_all add: provider_line_def set_prop_keys)

lemma provider_section_keys:
  assumes "distinct (map fst ps)"
  shows "distinct (map fst (provider_section sec ps))"
proof (cases "re_match section_provider_re sec")
  case None
  with assms show ?thesis by (simp add: provider_section_def)
next
  case (Some m)
  show ?thesis
  proof (cases "map_of ps (group m 1)")
    case None
    with assms Some show ?thesis by (simp add: provider_section_def)
  next
    case (Some old)
    with assms \<open>re_match section_provider_re sec = Some m\<close> show ?thesis
      by (cases "match_all quoted_name_re sec") (simp_all add: provider_section_def set_prop_keys)
  qed
qed

lemma fold_keys:
  assumes "\<And>x t. distinct (map fst t) \<Longrightarrow> distinct (map fst (f x t))"
    and "distinct (map fst s)"
  shows "distinct (map fst (fold f xs s))"
  using assms(2) by (induction xs arbitrary: s) (simp_all add: assms(1))

lemma declared_providers_keys: "distinct (map fst (declared_providers fileContent))"
proof (cases "re_match providerRegex fileContent")
  case None
  then show ?thesis by (simp add: declared_providers_def)
next
  case (Some m)
  have "distinct (map fst (fold provider_line xs []))" for xs
    by (rule fold_keys) (simp_all add: provider_line_keys)
  with Some show ?thesis by (simp add: declared_providers_def)
qed

lemma declared_keys: "distinct (map fst (default_models fileContent (declared_providers fileContent)))"
proof (cases "re_match defaultModelsRegex fileContent")
  case None
  then show ?thesis by (simp add: default_models_def declared_providers_keys)
next
  case (Some m)
  have "distinct (map fst (fold provider_section xs (declared_providers fileContent)))" for xs
    by (rule fold_keys) (simp_all add: provider_section_keys declared_providers_keys)
  with Some show ?thesis by (simp add: default_models_def declared_providers_keys)
qed

lemma merge_unlisted_models: "models (merge_unlisted p) = models p @ unlisted p"
  by (simp add: merge_unlisted_def unlisted_def split: option.splits)

lemma block_entry_names: "map name (map (block_entry bl) ks) = ks"
  by (induction ks) (simp_all add: block_entry_def)

subsection \<open>What can raise\<close>

lemma foldM_total:
  assumes "\<And>x s. \<exists>s'. f x s = Inr s'"
  shows "\<exists>s'. foldM f xs s = Inr s'"
proof (induction xs arbitrary: s)
  case Nil
  then show ?case by simp
next
  case (Cons x xs)
  from assms [of x s] obtain t where "f x s = Inr t" by blast
  with Cons.IH [of t] show ?case by simp
qed

lemma foldM_raises:
  "foldM f xs s = Inl e \<Longrightarrow> \<exists>x t. f x t = Inl e"
proof (induction xs arbitrary: s)
  case Nil
  then show ?case by simp
next
  case (Cons x xs)
  then show ?case by (cases "f x s") auto
qed

lemma own_extractor_total:
  "\<exists>bl. extract_blocks_with (\<lambda>s. Inr (parseModelDetails s)) fileContent = Inr bl"
proof -
  have sec: "\<exists>bl'. store_section (\<lambda>s. Inr (parseModelDetails s)) sec bl = Inr bl'" for sec bl
    by (simp add: store_section_def)
  have "\<exists>bl'. extractModelsFromBlock_with (\<lambda>s. Inr (parseModelDetails s)) fileContent b bl = Inr bl'"
    for b bl
  proof (cases "first_match (blockRegexes b) fileContent")
    case None
    then show ?thesis by (simp add: extractModelsFromBlock_with_def)
  next
    case (Some m)
    with foldM_total [of "store_section (\<lambda>s. Inr (parseModelDetails s))", OF sec]
    show ?thesis by (simp add: extractModelsFromBlock_with_def)
  qed
  then show ?thesis
    unfolding extract_blocks_with_def by (rule foldM_total)
qed

lemma scan_models_raises:
  "scan_models k ns = Inl e \<Longrightarrow> e = TypeError ''extraModels[providerName].includes is not a function''"
  by (induction ns) (auto split: if_splits sum.splits)

lemma add_models_raises:
  assumes "add_models cmp bl decl k ps = Inl e"
  shows "e = TypeError ''extraModels[providerName].includes is not a function''"
proof (cases "map_of decl k")
  case None
  with assms show ?thesis by (simp add: add_models_def)
next
  case (Some listed)
  with assms have "provider_models cmp bl k listed = Inl e"
    by (cases "provider_models cmp bl k listed") (simp_all add: add_models_def)
  then have "scan_models k (forin bl) = Inl e"
    by (cases "listed = []"; cases "scan_models k (forin bl)") (simp_all add: provider_models_def)
  then show ?thesis by (rule scan_models_raises)
qed

subsection \<open>The example documents\<close>

lemma listed_output:
  "parseModelData cmp doc_listed =
     Inr [(''openAI'',
           \<lparr>models = [\<lparr>name = ''gpt-b'', capabilities = JObj []\<rparr>,
                      \<lparr>name = ''gpt-a'', capabilities = JObj []\<rparr>],
            unlistedModels = None\<rparr>)]"
  by code_simp


lemma two_output:
  "parseModelData cmp doc_two_providers =
     Inr [(''anthropic'',
           \<lparr>models = [\<lparr>name = ''No models listed for anthropic'', capabilities = JObj []\<rparr>],
            unlistedModels = None\<rparr>),
          (''other'',
           \<lparr>models = [\<lparr>name = ''llama-3'', capabilities = JObj []\<rparr>],
            unlistedModels = None\<rparr>)]"
  by code_simp

lemma raising_try:
  "parseModelData_try (\<lambda>s. Inr (parseModelDetails s)) cmp doc_raising =
     Inl (TypeError ''extraModels[providerName].includes is not a function'')"
  by code_simp


section \<open>The claims\<close>

text \<open>
  C1. For a block body with N quoted entries the section-splitting step should yield N
  sections, the i-th named by the i-th quoted identifier, also when the first entry
  starts at offset 0 of the trimmed body. The program tests \<^verbatim>\<open>lastIndex > 0\<close> to know
  whether an entry has been seen, so an entry at offset 0 is never added: of the two
  entries below only the second is returned, while the same entries after a comment are
  both returned.
\<close>

theorem first_entry_at_offset_0_dropped:
  "modelSections '''a': {x}, 'b': {y}'' = [(''b'', '''b': {y}'')]
   \<and> modelSections ''// c\<newline>'a': {x}, 'b': {y}''
       = [(''a'', '''a': {x}, ''), (''b'', '''b': {y}'')]"
  by code_simp

text \<open>
  C2. \<^verbatim>\<open>parseModelData\<close> raises on no document: it always returns, and when the body of
  its \<^verbatim>\<open>try\<close> raises it returns the empty provider mapping. (The calls of \<^verbatim>\<open>log\<close> are
  not part of the embedding.)
\<close>

theorem parseModelData_never_raises:
  "(\<exists>ps. parseModelData cmp fileContent = Inr ps)
   \<and> (\<forall>e. parseModelData_try (\<lambda>s. Inr (parseModelDetails s)) cmp fileContent = Inl e
          \<longrightarrow> parseModelData cmp fileContent = Inr [])"
  by (cases "parseModelData_try (\<lambda>s. Inr (parseModelDetails s)) cmp fileContent")
     (simp_all add: parseModelData_def parseModelData_with_def)

theorem parseModelData_never_raises_witness:
  "parseModelData_try (\<lambda>s. Inr (parseModelDetails s)) compare_units doc_raising
     = Inl (TypeError ''extraModels[providerName].includes is not a function'')
   \<and> parseModelData compare_units doc_raising = Inr []"
  using parseModelData_never_raises [of compare_units doc_raising] raising_try [of compare_units]
  by simp




text \<open>
  C4. The normal form of a name should hold no digit of a decimal version number such
  as 3.5. The program removes the dots first, with the other separators, so the
  expression for version numbers finds nothing to remove and the digits stay.
\<close>

theorem version_digits_stay:
  "normalized ''gpt-3.5-turbo'' = ''gpt35turbo''"
  by code_simp

text \<open>
  C5. Every provider key of the provider-settings declaration should give a provider in
  the output. The body the program reads ends at the first closing brace, which closes
  the settings of the first provider: of the two providers declared below only the first
  is found, and the output has no provider \<^verbatim>\<open>openAI\<close>.
\<close>

theorem second_provider_missing:
  "declared_providers doc_two_providers = [(''anthropic'', [])]
   \<and> (\<exists>ps. parseModelData cmp doc_two_providers = Inr ps \<and> map_of ps ''openAI'' = None)"
proof -
  have "declared_providers doc_two_providers = [(''anthropic'', [])]"
    by code_simp
  then show ?thesis using two_output [of cmp] by simp
qed

text \<open>
  C6. Every provider of the output of \<^verbatim>\<open>parseModelData\<close> has at least one model: the
  output is what the last loop makes of the providers, and that loop gives a provider
  without models the one placeholder model, whose capabilities are empty.
\<close>

theorem models_never_empty:
  assumes "parseModelData cmp fileContent = Inr ps"
  shows "(\<forall>kp\<in>set ps. models (snd kp) \<noteq> [])
         \<and> (\<exists>ps0. ps = map fill_empty ps0
                \<and> (\<forall>kp\<in>set ps0. models (snd kp) = [] \<longrightarrow>
                      fill_empty kp =
                        (fst kp, (snd kp)\<lparr>models :=
                           [\<lparr>name = ''No models listed for '' @ fst kp, capabilities = JObj []\<rparr>]\<rparr>)))"
proof -
  from assms have "ps = [] \<or> (\<exists>ps0. ps = map fill_empty ps0)"
    by (auto simp: parseModelData_def parseModelData_with_def parseModelData_try_def
          associate_def simp del: map_map split: sum.splits)
  then have "\<exists>ps0. ps = map fill_empty ps0"
    by (metis list.simps(8))
  then obtain ps0 where ps0: "ps = map fill_empty ps0" by blast
  then have "\<forall>kp\<in>set ps. models (snd kp) \<noteq> []"
    by (auto simp: fill_empty_models)
  moreover have "\<forall>kp\<in>set ps0. models (snd kp) = [] \<longrightarrow>
      fill_empty kp =
        (fst kp, (snd kp)\<lparr>models :=
           [\<lparr>name = ''No models listed for '' @ fst kp, capabilities = JObj []\<rparr>]\<rparr>)"
    by (simp add: fill_empty_def placeholder_def)
  ultimately show ?thesis using ps0 by blast
qed

theorem models_never_empty_witness:
  "parseModelData compare_units doc_two_providers =
     Inr [(''anthropic'',
           \<lparr>models = [\<lparr>name = ''No models listed for anthropic'', capabilities = JObj []\<rparr>],
            unlistedModels = None\<rparr>),
          (''other'',
           \<lparr>models = [\<lparr>name = ''llama-3'', capabilities = JObj []\<rparr>],
            unlistedModels = None\<rparr>)]
   \<and> list_all (\<lambda>kp. models (snd kp) \<noteq> [])
        [(''anthropic'',
           \<lparr>models = [\<lparr>name = ''No models listed for anthropic'', capabilities = JObj []\<rparr>],
            unlistedModels = None\<rparr>),
          (''other'',
           \<lparr>models = [\<lparr>name = ''llama-3'', capabilities = JObj []\<rparr>],
            unlistedModels = None\<rparr>)]"
  using models_never_empty [OF two_output [of compare_units]] two_output [of compare_units]
  by (simp add: list_all_iff)

text \<open>
  C7. No two models of a provider should share a name, the first of several being kept.
  The program records the names seen as properties of an object and tests them by
  reading the property, so a name that is a member of \<^verbatim>\<open>Object.prototype\<close> counts as
  seen from the start: the provider below lists \<^verbatim>\<open>constructor\<close> twice and keeps no
  occurrence of it, not the first one either.
\<close>

theorem inherited_name_loses_first_occurrence:
  "parseModelData cmp doc_duplicates =
     Inr [(''openAI'',
           \<lparr>models = [\<lparr>name = ''No models listed for openAI'', capabilities = JObj []\<rparr>],
            unlistedModels = None\<rparr>)]"
  by code_simp

text \<open>
  C8. The models of every provider of the output should be sorted by name. The program
  sorts the models of a provider before it appends the models the keyword heuristic
  gives that provider: below, \<^verbatim>\<open>gpt-a\<close> comes after \<^verbatim>\<open>gpt-b\<close> in the output, whatever
  the comparison.
\<close>

theorem heuristic_models_not_sorted:
  "parseModelData cmp doc_listed =
     Inr [(''openAI'',
           \<lparr>models = [\<lparr>name = ''gpt-b'', capabilities = JObj []\<rparr>,
                      \<lparr>name = ''gpt-a'', capabilities = JObj []\<rparr>],
            unlistedModels = None\<rparr>)]
   \<and> compare_units ''gpt-a'' ''gpt-b'' < 0"
proof -
  have "compare_units ''gpt-a'' ''gpt-b'' < 0"
    by code_simp
  then show ?thesis using listed_output [of cmp] by simp
qed






section \<open>Further properties\<close>

text \<open>
  X1. In the output of \<^verbatim>\<open>parseModelData\<close> no two models of a provider have the same
  name, whatever the field extractor and the comparison: the listed models are filtered
  for names seen before, and the models the keyword heuristic adds are entries that no
  provider has yet, each added once.
\<close>

theorem model_names_distinct:
  assumes "parseModelData_with pmd cmp fileContent = Inr out" and "kp \<in> set out"
  shows "distinct (map name (models (snd kp)))"
proof -
  let ?decl = "default_models fileContent (declared_providers fileContent)"
  from assms obtain bl ps
    where bl: "extract_blocks_with pmd fileContent = Inr bl"
      and ps: "first_loop cmp bl ?decl = Inr ps"
      and out: "out = map fill_empty (map (\<lambda>kp. (fst kp, merge_unlisted (snd kp)))
                        (add_other (unassigned bl ps)))"
    by (auto simp: parseModelData_with_def parseModelData_try_def associate_def
          simp del: map_map split: sum.splits)
  let ?u = "unassigned bl ps"
  from out assms(2) obtain k p
    where kp: "kp = fill_empty (k, merge_unlisted p)" and mem: "(k, p) \<in> set (add_other ?u)"
    by auto
  have keys: "distinct (map fst ps)"
    using first_loop_keys [OF ps] declared_keys [of fileContent] by simp
  have tidy: "\<forall>kp\<in>set ps. distinct (map name (models (snd kp))) \<and> unlistedModels (snd kp) = None"
    using ps by (rule first_loop_tidy)
  have forin: "distinct (forin bl)"
    using extract_blocks_keys [OF bl] by (rule forin_distinct)
  have apart: "apart ps (set (forin bl)) (fst ?u)"
    using tidy extract_blocks_keys [OF bl] by (intro unassigned_apart) auto
  have merged: "distinct (map name (models (merge_unlisted p)))"
  proof (cases "(k, p) \<in> set (fst ?u)")
    case True
    from apart have same: "same_models ps (fst ?u)" by (simp add: apart_def)
    then have "distinct (map fst (fst ?u))" using keys by (simp add: same_models_def)
    with True have "map_of (fst ?u) k = Some p" by simp
    moreover from same
    have "map_option models (map_of (fst ?u) k) = map_option models (map_of ps k)"
      by (simp add: same_models_def)
    ultimately have "map_option models (map_of ps k) = Some (models p)" by simp
    then obtain p1 where p1: "map_of ps k = Some p1" and eq: "models p1 = models p"
      by (cases "map_of ps k") auto
    from p1 have mem1: "(k, p1) \<in> set ps" by (rule map_of_SomeD)
    with tidy eq have dm: "distinct (map name (models p))" by force
    from names_assigned [OF keys mem1] eq
    have am: "\<forall>m\<in>set (models p). assigned ps (name m)" by simp
    from apart True have du: "distinct (map name (unlisted p))"
      and au: "\<forall>n\<in>set (map name (unlisted p)). \<not> assigned ps n"
      by (auto simp: apart_def)
    from dm du am au show ?thesis
      by (auto simp: merge_unlisted_models)
  next
    case False
    with mem have p: "p = \<lparr>models = snd ?u, unlistedModels = None\<rparr>"
      by (auto simp: add_other_def set_prop_def split: if_splits dest!: set_update_cases)
    from unassigned_result [of ps bl]
    have "snd ?u = map (block_entry bl) (filter (unclassified ps) (forin bl))" by simp
    with forin p show ?thesis
      by (simp add: merge_unlisted_def block_entry_names del: map_map)
  qed
  then show ?thesis
    unfolding kp by (simp add: fill_empty_def placeholder_def)
qed

theorem model_names_distinct_witness:
  "parseModelData_with (\<lambda>s. Inr (parseModelDetails s)) compare_units doc_listed =
     Inr [(''openAI'',
           \<lparr>models = [\<lparr>name = ''gpt-b'', capabilities = JObj []\<rparr>,
                      \<lparr>name = ''gpt-a'', capabilities = JObj []\<rparr>],
            unlistedModels = None\<rparr>)]
   \<and> distinct (map name [\<lparr>name = ''gpt-b'', capabilities = JObj []\<rparr>,
                           \<lparr>name = ''gpt-a'', capabilities = JObj []\<rparr>])"
proof -
  have out: "parseModelData_with (\<lambda>s. Inr (parseModelDetails s)) compare_units doc_listed =
     Inr [(''openAI'',
           \<lparr>models = [\<lparr>name = ''gpt-b'', capabilities = JObj []\<rparr>,
                      \<lparr>name = ''gpt-a'', capabilities = JObj []\<rparr>],
            unlistedModels = None\<rparr>)]"
    using listed_output [of compare_units] by (simp add: parseModelData_def)
  from model_names_distinct [OF out, of "(''openAI'',
           \<lparr>models = [\<lparr>name = ''gpt-b'', capabilities = JObj []\<rparr>,
                      \<lparr>name = ''gpt-a'', capabilities = JObj []\<rparr>],
            unlistedModels = None\<rparr>)"]
  have "distinct (map name [\<lparr>name = ''gpt-b'', capabilities = JObj []\<rparr>,
                            \<lparr>name = ''gpt-a'', capabilities = JObj []\<rparr>])"
    by simp
  with out show ?thesis by (rule conjI)
qed

text \<open>
  X2. With the program's own field extractor the extraction of the blocks raises on no
  document, and the one exception the body of the \<^verbatim>\<open>try\<close> can raise is the
  \<^verbatim>\<open>TypeError\<close> of the scan for a provider without listed models, when the provider is
  named like a member of \<^verbatim>\<open>Object.prototype\<close>.
\<close>

theorem only_the_provider_scan_raises:
  assumes "parseModelData_try (\<lambda>s. Inr (parseModelDetails s)) cmp fileContent = Inl e"
  shows "e = TypeError ''extraModels[providerName].includes is not a function''"
proof -
  from own_extractor_total [of fileContent] obtain bl
    where "extract_blocks_with (\<lambda>s. Inr (parseModelDetails s)) fileContent = Inr bl"
    by blast
  with assms
  have "first_loop cmp bl (default_models fileContent (declared_providers fileContent)) = Inl e"
    by (cases "first_loop cmp bl (default_models fileContent (declared_providers fileContent))")
       (simp_all add: parseModelData_try_def associate_def)
  then obtain k ps
    where "add_models cmp bl (default_models fileContent (declared_providers fileContent)) k ps = Inl e"
    unfolding first_loop_def by (blast dest: foldM_raises)
  then show ?thesis by (rule add_models_raises)
qed

theorem only_the_provider_scan_raises_witness:
  "parseModelData_try (\<lambda>s. Inr (parseModelDetails s)) compare_units doc_raising
     = Inl (TypeError ''extraModels[providerName].includes is not a function'')"
  using only_the_provider_scan_raises [OF raising_try [of compare_units]]
    raising_try [of compare_units]
  by simp

end
